theory Spec2Isabelle
  imports Complex_Main "HOL-Library.Log_Nat"
begin

section \<open>Python values used by the heist cogs\<close>

datatype exn = ValueError | OverflowError | ZeroDivisionError

text \<open>
  A Python \<open>float\<close> is an IEEE-754 binary64 value: a finite value other than negative
  zero is kept as the rational it denotes (\<open>Finite 0\<close> is positive zero), and every
  operation rounds its exact result with \<open>round_double\<close>.
\<close>

datatype pyfloat = Finite rat | NegZero | PosInf | NegInf | NaN

definition pow2 :: "int \<Rightarrow> rat" where
  "pow2 e = (if 0 \<le> e then 2 ^ nat e else 1 / 2 ^ nat (- e))"

definition ilog2 :: "rat \<Rightarrow> int" where
  \<comment> \<open>for \<open>0 < q\<close>: the \<open>e\<close> with \<open>2^e \<le> q < 2^(e+1)\<close>\<close>
  "ilog2 q = (if 1 \<le> q then bitlen \<lfloor>q\<rfloor> - 1 else - bitlen (\<lceil>1 / q\<rceil> - 1))"

definition round_half_even :: "rat \<Rightarrow> int" where
  "round_half_even x =
     (let f = \<lfloor>x\<rfloor>; d = x - of_int f
      in if d < 1 / 2 then f else if 1 / 2 < d then f + 1
         else if even f then f else f + 1)"

definition round_double :: "rat \<Rightarrow> pyfloat" where
  \<comment> \<open>round to nearest, ties to even, 53 significant bits, exponents -1022..1023,
      subnormals below, overflow to infinity; a negative value that rounds to zero gives
      negative zero. The callers decide the sign of an exact zero.\<close>
  "round_double q =
     (if q = 0 then Finite 0
      else let a = \<bar>q\<bar>;
               e = max (ilog2 a) (- 1022);
               u = pow2 (e - 52);
               m = of_int (round_half_even (a / u)) * u
           in if pow2 1024 \<le> m then (if q < 0 then NegInf else PosInf)
              else if q < 0 then (if m = 0 then NegZero else Finite (- m))
              else Finite m)"

fun is_neg :: "pyfloat \<Rightarrow> bool" where
  \<comment> \<open>the sign bit\<close>
  "is_neg (Finite q) = (q < 0)"
| "is_neg NegZero = True"
| "is_neg PosInf = False"
| "is_neg NegInf = True"
| "is_neg NaN = False"

fun fval :: "pyfloat \<Rightarrow> rat option" where
  \<comment> \<open>the value of a finite float\<close>
  "fval (Finite q) = Some q"
| "fval NegZero = Some 0"
| "fval PosInf = None"
| "fval NegInf = None"
| "fval NaN = None"

definition signed_zero :: "bool \<Rightarrow> pyfloat" where
  "signed_zero neg = (if neg then NegZero else Finite 0)"

definition signed_inf :: "bool \<Rightarrow> pyfloat" where
  "signed_inf neg = (if neg then NegInf else PosInf)"

definition py_mul :: "pyfloat \<Rightarrow> pyfloat \<Rightarrow> pyfloat" where
  \<comment> \<open>\<open>x * y\<close> on floats\<close>
  "py_mul x y =
     (if x = NaN \<or> y = NaN then NaN
      else case (fval x, fval y) of
        (Some a, Some b) \<Rightarrow>
          if a * b = 0 then signed_zero (is_neg x \<noteq> is_neg y) else round_double (a * b)
      | (Some a, None) \<Rightarrow> if a = 0 then NaN else signed_inf (is_neg x \<noteq> is_neg y)
      | (None, Some b) \<Rightarrow> if b = 0 then NaN else signed_inf (is_neg x \<noteq> is_neg y)
      | (None, None) \<Rightarrow> signed_inf (is_neg x \<noteq> is_neg y))"

definition fdiv :: "pyfloat \<Rightarrow> pyfloat \<Rightarrow> pyfloat" where
  \<comment> \<open>the IEEE quotient \<open>x / y\<close> for a divisor that is not zero\<close>
  "fdiv x y =
     (if x = NaN \<or> y = NaN then NaN
      else case (fval x, fval y) of
        (Some a, Some b) \<Rightarrow>
          if a = 0 then signed_zero (is_neg x \<noteq> is_neg y) else round_double (a / b)
      | (Some a, None) \<Rightarrow> signed_zero (is_neg x \<noteq> is_neg y)
      | (None, Some b) \<Rightarrow> signed_inf (is_neg x \<noteq> is_neg y)
      | (None, None) \<Rightarrow> NaN)"

definition py_truediv :: "pyfloat \<Rightarrow> pyfloat \<Rightarrow> exn + pyfloat" where
  \<comment> \<open>\<open>x / y\<close> on floats; a zero divisor raises\<close>
  "py_truediv x y =
     (if y = Finite 0 \<or> y = NegZero then Inl ZeroDivisionError else Inr (fdiv x y))"

definition float_of_int :: "int \<Rightarrow> exn + pyfloat" where
  \<comment> \<open>the conversion of an \<open>int\<close> operand in mixed arithmetic\<close>
  "float_of_int n =
     (case round_double (of_int n) of
        Finite q \<Rightarrow> Inr (Finite q)
      | _ \<Rightarrow> Inl OverflowError)"

definition py_truediv_int :: "pyfloat \<Rightarrow> int \<Rightarrow> exn + pyfloat" where
  \<comment> \<open>\<open>x / n\<close> with a float \<open>x\<close> and an int \<open>n\<close>\<close>
  "py_truediv_int x n =
     (case float_of_int n of Inl e \<Rightarrow> Inl e | Inr d \<Rightarrow> py_truediv x d)"

fun py_int :: "pyfloat \<Rightarrow> exn + int" where
  \<comment> \<open>\<open>int(x)\<close>: truncation towards zero\<close>
  "py_int (Finite q) = Inr (if 0 \<le> q then \<lfloor>q\<rfloor> else \<lceil>q\<rceil>)"
| "py_int NegZero = Inr 0"
| "py_int PosInf = Inl OverflowError"
| "py_int NegInf = Inl OverflowError"
| "py_int NaN = Inl ValueError"

fun py_ge :: "pyfloat \<Rightarrow> rat \<Rightarrow> bool" where
  \<comment> \<open>\<open>x >= c\<close> for an int constant \<open>c\<close>; Python compares float and int exactly\<close>
  "py_ge (Finite q) c = (c \<le> q)"
| "py_ge NegZero c = (c \<le> 0)"
| "py_ge PosInf c = True"
| "py_ge NegInf c = False"
| "py_ge NaN c = False"

subsection \<open>Strings\<close>

text \<open>
  A Python \<open>str\<close> is the list of its code points. The character classes are those of
  CPython 3.11 (Unicode 14.0): \<open>str.isspace\<close>, which \<open>str.strip\<close> and \<open>\s\<close> use, the
  decimal digits, which \<open>\d\<close> and \<open>float\<close> use, and the line boundaries of
  \<open>str.splitlines\<close>.
\<close>

type_synonym str = "nat list"

abbreviation ch :: "char \<Rightarrow> nat" where
  "ch \<equiv> of_char"

definition lit :: "string \<Rightarrow> str" where
  \<comment> \<open>an ASCII literal of the source\<close>
  "lit s = map of_char s"

definition glyph :: str where
  \<comment> \<open>the currency sign U+23E3\<close>
  "glyph = [0x23E3]"

definition decimal_starts :: "nat list" where
  \<comment> \<open>the code points of the digits zero; each is followed by its digits one to nine\<close>
  "decimal_starts =
     [48, 1632, 1776, 1984, 2406, 2534, 2662, 2790, 2918, 3046, 3174, 3302, 3430, 3558,
      3664, 3792, 3872, 4160, 4240, 6112, 6160, 6470, 6608, 6784, 6800, 6992, 7088, 7232,
      7248, 42528, 43216, 43264, 43472, 43504, 43600, 44016, 65296, 66720, 68912, 69734,
      69872, 69942, 70096, 70384, 70736, 70864, 71248, 71360, 71472, 71904, 72016, 72784,
      73040, 73120, 92768, 92864, 93008, 120782, 120792, 120802, 120812, 120822, 123200,
      123632, 125264, 130032]"

definition digit_start :: "nat \<Rightarrow> nat option" where
  "digit_start c = find (\<lambda>s. s \<le> c \<and> c < s + 10) decimal_starts"

definition is_digit :: "nat \<Rightarrow> bool" where
  \<comment> \<open>the class \<open>\d\<close> of a \<open>str\<close> pattern: the decimal digits of Unicode\<close>
  "is_digit c = (digit_start c \<noteq> None)"

definition digit_val :: "nat \<Rightarrow> nat" where
  \<comment> \<open>the decimal value of a digit\<close>
  "digit_val c = (case digit_start c of Some s \<Rightarrow> c - s | None \<Rightarrow> 0)"

definition is_space :: "nat \<Rightarrow> bool" where
  \<comment> \<open>\<open>str.isspace\<close> and \<open>\s\<close>\<close>
  "is_space c =
     (c \<in> {9, 10, 11, 12, 13, 28, 29, 30, 31, 32, 0x85, 0xA0, 0x1680, 0x2028, 0x2029,
            0x202F, 0x205F, 0x3000}
      \<or> (0x2000 \<le> c \<and> c \<le> 0x200A))"

definition is_linebreak :: "nat \<Rightarrow> bool" where
  \<comment> \<open>the line boundaries of \<open>str.splitlines\<close>\<close>
  "is_linebreak c = (c \<in> {10, 11, 12, 13, 28, 29, 30, 0x85, 0x2028, 0x2029})"

definition lower_char :: "nat \<Rightarrow> str" where
  \<comment> \<open>\<open>str.lower\<close> on one character: exact on ASCII and on the two other characters
      whose lower case has an ASCII letter, U+212A and U+0130. Every other character has
      a lower case without ASCII characters and is left in place, which does not change
      where an ASCII phrase occurs.\<close>
  "lower_char c =
     (if 65 \<le> c \<and> c \<le> 90 then [c + 32]
      else if c = 0x212A then [ch CHR ''k'']
      else if c = 0x130 then [ch CHR ''i'', 0x307]
      else [c])"

definition lower :: "str \<Rightarrow> str" where
  "lower s = concat (map lower_char s)"

definition startswith :: "str \<Rightarrow> str \<Rightarrow> bool" where
  "startswith s p = (take (length p) s = p)"

definition endswith :: "str \<Rightarrow> str \<Rightarrow> bool" where
  "endswith s p = (length p \<le> length s \<and> drop (length s - length p) s = p)"

fun contains :: "str \<Rightarrow> str \<Rightarrow> bool" where
  \<comment> \<open>\<open>p in s\<close>\<close>
  "contains [] p = (p = [])"
| "contains (c # cs) p = (startswith (c # cs) p \<or> contains cs p)"

function remove_all :: "str \<Rightarrow> str \<Rightarrow> str" where
  \<comment> \<open>\<open>s.replace(old, "")\<close> for a non-empty \<open>old\<close>\<close>
  "remove_all old s =
     (if s = [] \<or> old = [] then s
      else if startswith s old then remove_all old (drop (length old) s)
      else hd s # remove_all old (tl s))"
  by pat_completeness auto
termination
  by (relation "measure (\<lambda>(old, s). length s)") (auto simp: neq_Nil_conv)

declare remove_all.simps [simp del]

definition strip :: "str \<Rightarrow> str" where
  "strip s = rev (dropWhile is_space (rev (dropWhile is_space s)))"

definition rstrip_chars :: "str \<Rightarrow> str \<Rightarrow> str" where
  \<comment> \<open>\<open>s.rstrip(cs)\<close>\<close>
  "rstrip_chars s cs = rev (dropWhile (\<lambda>c. c \<in> set cs) (rev s))"

fun splitlines_aux :: "str \<Rightarrow> bool \<Rightarrow> str \<Rightarrow> str list" where
  \<comment> \<open>\<open>cur\<close> is the current line, reversed; a line feed right after a carriage return
      belongs to the same boundary\<close>
  "splitlines_aux cur after_cr [] = (if cur = [] then [] else [rev cur])"
| "splitlines_aux cur after_cr (c # cs) =
     (if after_cr \<and> c = 10 then splitlines_aux cur False cs
      else if is_linebreak c then rev cur # splitlines_aux [] (c = 13) cs
      else splitlines_aux (c # cur) False cs)"

definition splitlines :: "str \<Rightarrow> str list" where
  "splitlines s = splitlines_aux [] False s"

subsection \<open>Decimal digits\<close>

definition digit_char :: "nat \<Rightarrow> nat" where
  "digit_char d = 48 + d"

function dec :: "nat \<Rightarrow> str" where
  \<comment> \<open>the decimal digits of a natural number, as \<open>str(n)\<close> prints them\<close>
  "dec n = (if n < 10 then [digit_char n] else dec (n div 10) @ [digit_char (n mod 10)])"
  by pat_completeness auto
termination
  by (relation "measure id") auto

declare dec.simps [simp del]

definition nat_of_digits :: "str \<Rightarrow> nat" where
  "nat_of_digits s = foldl (\<lambda>a c. 10 * a + digit_val c) 0 s"

fun group3 :: "str \<Rightarrow> str" where
  \<comment> \<open>on the reversed digits: a comma after every third digit that has a successor\<close>
  "group3 (a # b # c # d # r) = a # b # c # ch CHR '','' # group3 (d # r)"
| "group3 s = s"

definition group_commas :: "str \<Rightarrow> str" where
  "group_commas s = rev (group3 (rev s))"

definition fmt_fixed2 :: "bool \<Rightarrow> pyfloat \<Rightarrow> str" where
  \<comment> \<open>the format specs \<open>,.2f\<close> (grouping) and \<open>.2f\<close>: the exact value rounded to two
      decimals, ties to even; the sign of a negative value is kept\<close>
  "fmt_fixed2 grouping x =
     (case x of
        Finite q \<Rightarrow>
          (let n = nat (round_half_even (\<bar>q\<bar> * 100));
               ip = dec (n div 100)
           in (if q < 0 then lit ''-'' else []) @ (if grouping then group_commas ip else ip)
              @ lit ''.'' @ [digit_char (n mod 100 div 10), digit_char (n mod 10)])
      | NegZero \<Rightarrow> lit ''-0.00''
      | PosInf \<Rightarrow> lit ''inf''
      | NegInf \<Rightarrow> lit ''-inf''
      | NaN \<Rightarrow> lit ''nan'')"

definition py_float :: "str \<Rightarrow> exn + pyfloat" where
  \<comment> \<open>\<open>float(s)\<close> on the strings the callers pass, which consist of decimal digits and
      dots: digits with at most one dot and at least one digit convert, correctly
      rounded; every other such string raises ValueError. Outside that language (signs,
      exponents, blanks, underscores) this is not Python's \<open>float\<close>.\<close>
  "py_float s =
     (let ip = takeWhile is_digit s; r = dropWhile is_digit s
      in case r of
           [] \<Rightarrow> if ip = [] then Inl ValueError
                 else Inr (round_double (of_nat (nat_of_digits ip)))
         | c # fr \<Rightarrow>
             if c = ch CHR ''.'' \<and> list_all is_digit fr \<and> (ip \<noteq> [] \<or> fr \<noteq> [])
             then Inr (round_double
                        (of_nat (nat_of_digits ip) + of_nat (nat_of_digits fr) / 10 ^ length fr))
             else Inl ValueError)"

section \<open>heistsummary.py: the helper functions\<close>

definition num_class :: "nat \<Rightarrow> bool" where
  \<comment> \<open>the class \<open>[\d\.]\<close>\<close>
  "num_class c = (is_digit c \<or> c = ch CHR ''.'')"

definition suffix_class :: "nat \<Rightarrow> bool" where
  \<comment> \<open>the class \<open>[kKmMbB]\<close>, matched case-sensitively\<close>
  "suffix_class c = (c \<in> set (lit ''kKmMbB''))"

definition upper_char :: "nat \<Rightarrow> nat" where
  \<comment> \<open>\<open>str.upper\<close> on an ASCII character, which is all that the suffix group can hold\<close>
  "upper_char c = (if 97 \<le> c \<and> c \<le> 122 then c - 32 else c)"

definition match_suffix :: "str \<Rightarrow> str" where
  \<comment> \<open>the group \<open>([kKmMbB]?)\<close> at the head of the rest\<close>
  "match_suffix rest = (case rest of [] \<Rightarrow> [] | c # _ \<Rightarrow> if suffix_class c then [c] else [])"

definition scale_by_suffix :: "str \<Rightarrow> pyfloat \<Rightarrow> pyfloat" where
  "scale_by_suffix suffix base_val =
     (if suffix = lit ''K'' then py_mul base_val (Finite 1000)
      else if suffix = lit ''M'' then py_mul base_val (Finite 1000000)
      else if suffix = lit ''B'' then py_mul base_val (Finite 1000000000)
      else base_val)"

definition parse_currency_value :: "str \<Rightarrow> exn + pyfloat option" where
  "parse_currency_value raw =
     (if raw = [] then Inr None
      else let text = strip (remove_all (lit '','') (remove_all glyph raw));
               num_str = takeWhile num_class text;
               suffix = map upper_char (match_suffix (dropWhile num_class text))
           in if num_str = [] then Inr None
              else case py_float num_str of
                     Inl e \<Rightarrow> if e = ValueError then Inr None else Inl e
                   | Inr base_val \<Rightarrow> Inr (Some (scale_by_suffix suffix base_val)))"

definition parse_plain_number :: "str \<Rightarrow> exn + pyfloat option" where
  "parse_plain_number raw =
     (if raw = [] then Inr None
      else let text = strip (remove_all (lit '','') raw);
               num_str = takeWhile num_class text
           in if num_str = [] then Inr None
              else case py_float num_str of
                     Inl e \<Rightarrow> if e = ValueError then Inr None else Inl e
                   | Inr v \<Rightarrow> Inr (Some v))"

definition strip_dot00 :: "str \<Rightarrow> str" where
  \<comment> \<open>\<open>s[:-3] if s.endswith(".00") else s\<close>\<close>
  "strip_dot00 s = (if endswith s (lit ''.00'') then take (length s - 3) s else s)"

definition format_number :: "pyfloat \<Rightarrow> str" where
  "format_number val =
     (let formatted = fmt_fixed2 True val
      in if endswith formatted (lit ''.00'') then take (length formatted - 3) formatted
         else rstrip_chars (rstrip_chars formatted (lit ''0'')) (lit ''.''))"

definition abbreviate_number :: "pyfloat \<Rightarrow> str" where
  \<comment> \<open>the divisors are non-zero constants, so no division raises\<close>
  "abbreviate_number val =
     (if py_ge val 1000000000
      then strip_dot00 (fmt_fixed2 False (fdiv val (Finite 1000000000))) @ lit ''B''
      else if py_ge val 1000000
      then strip_dot00 (fmt_fixed2 False (fdiv val (Finite 1000000))) @ lit ''M''
      else if py_ge val 1000
      then strip_dot00 (fmt_fixed2 False (fdiv val (Finite 1000))) @ lit ''K''
      else format_number val)"

section \<open>heistsummary.py: scanning the channel history\<close>

record embed =
  title :: "str option"
  description :: "str option"

record message =
  msg_id :: nat
  author_id :: nat
  in_guild :: bool
  content :: str
  embeds :: "embed list"

definition DANK_MEMER_ID :: nat where
  "DANK_MEMER_ID = 270904126974590976"

definition or_empty :: "str option \<Rightarrow> str" where
  \<comment> \<open>\<open>x or ''\<close>\<close>
  "or_empty x = (case x of None \<Rightarrow> [] | Some t \<Rightarrow> t)"

definition combined_content :: "message \<Rightarrow> str" where
  \<comment> \<open>the content, followed by the last embed's title and description on lines of their own\<close>
  "combined_content m =
     (if embeds m = [] then content m
      else content m @ [10] @ or_empty (title (last (embeds m)))
           @ [10] @ or_empty (description (last (embeds m))))"

definition has_trigger :: "str \<Rightarrow> bool" where
  "has_trigger c = contains (lower c) (lit ''amazing job everybody'')"

definition ci_char :: "nat \<Rightarrow> nat \<Rightarrow> bool" where
  \<comment> \<open>a character \<open>p\<close> of a pattern literal, a lower-case ASCII letter or a blank,
      against \<open>c\<close> under \<open>re.IGNORECASE\<close>: the letter itself, its capital, and for
      \<open>k\<close> and \<open>s\<close> the characters U+212A and U+017F that have them as lower case.
      The patterns have no \<open>i\<close>, the only other letter with such a partner.\<close>
  "ci_char p c =
     (c = p \<or> (97 \<le> p \<and> p \<le> 122 \<and> c + 32 = p)
      \<or> (p = ch CHR ''k'' \<and> c = 0x212A) \<or> (p = ch CHR ''s'' \<and> c = 0x17F))"

definition startswith_ci :: "str \<Rightarrow> str \<Rightarrow> bool" where
  \<comment> \<open>a lower-case literal \<open>p\<close> matched at the head under \<open>re.IGNORECASE\<close>\<close>
  "startswith_ci s p = list_all2 ci_char p (take (length p) s)"

definition total_class :: "nat \<Rightarrow> bool" where
  \<comment> \<open>the class \<open>[\d,\.kmKMbB]\<close> under \<open>re.IGNORECASE\<close>, which adds U+212A\<close>
  "total_class c = (is_digit c \<or> c \<in> set (lit '',.kmKMbB'') \<or> c = 0x212A)"

definition count_class :: "nat \<Rightarrow> bool" where
  \<comment> \<open>the class \<open>[\d,\.]\<close>, which has no cased member\<close>
  "count_class c = (is_digit c \<or> c \<in> set (lit '',.''))"

fun total_tail :: "str \<Rightarrow> str option" where
  \<comment> \<open>\<open>.*?GLYPH\s*([\d,\.kmKMbB]+)\<close> matched at the head: the lazy \<open>.*?\<close> tries the
      shortest skip first, and \<open>.\<close> refuses a line feed. The blanks and the group are
      greedy; their classes are disjoint, so giving characters back never helps.\<close>
  "total_tail [] = None"
| "total_tail (c # cs) =
     (let g = takeWhile total_class (dropWhile is_space (drop (length glyph) (c # cs)))
      in if startswith (c # cs) glyph \<and> g \<noteq> [] then Some g
         else if c = 10 then None
         else total_tail cs)"

fun total_search :: "str \<Rightarrow> str option" where
  \<comment> \<open>\<open>total_pattern.search\<close>: the leftmost start at which the pattern matches\<close>
  "total_search [] = None"
| "total_search (c # cs) =
     (if startswith_ci (c # cs) (lit ''racked up a total'')
      then (case total_tail (drop 17 (c # cs)) of
              Some g \<Rightarrow> Some g
            | None \<Rightarrow> total_search cs)
      else total_search cs)"

definition count_at :: "str \<Rightarrow> str option" where
  \<comment> \<open>\<open>([\d,\.]+)\s+user(?:s)? got the payout\<close> matched at the head\<close>
  "count_at s =
     (let g = takeWhile count_class s;
          r = dropWhile count_class s;
          r2 = dropWhile is_space r;
          r3 = drop 4 r2
      in if g \<noteq> [] \<and> takeWhile is_space r \<noteq> [] \<and> startswith_ci r2 (lit ''user'')
            \<and> (startswith_ci r3 (lit ''s got the payout'') \<or> startswith_ci r3 (lit '' got the payout''))
         then Some g else None)"

fun count_search :: "str \<Rightarrow> str option" where
  \<comment> \<open>\<open>count_pattern.search\<close>\<close>
  "count_search [] = None"
| "count_search (c # cs) =
     (case count_at (c # cs) of Some g \<Rightarrow> Some g | None \<Rightarrow> count_search cs)"

definition clean_line :: "str \<Rightarrow> str" where
  \<comment> \<open>\<open>re.sub(r"[`\*]+", "", line).strip()\<close>\<close>
  "clean_line line = strip (filter (\<lambda>c. c \<noteq> 0x60 \<and> c \<noteq> 0x2A) line)"

type_synonym scan_state = "pyfloat option \<times> int"

definition update_total :: "pyfloat option \<Rightarrow> str \<Rightarrow> exn + pyfloat option" where
  "update_total total_coins cl =
     (case total_search cl of
        None \<Rightarrow> Inr total_coins
      | Some g \<Rightarrow>
          (case parse_currency_value (glyph @ (lit '' '') @ g) of
             Inl e \<Rightarrow> Inl e
           | Inr None \<Rightarrow> Inr total_coins
           | Inr (Some v) \<Rightarrow> Inr (Some v)))"

definition update_count :: "int \<Rightarrow> str \<Rightarrow> exn + int" where
  "update_count payout_count cl =
     (case count_search cl of
        None \<Rightarrow> Inr payout_count
      | Some g \<Rightarrow>
          (case parse_plain_number g of
             Inl e \<Rightarrow> Inl e
           | Inr None \<Rightarrow> Inr payout_count
           | Inr (Some num_val) \<Rightarrow> py_int num_val))"

definition scan_line :: "scan_state \<Rightarrow> str \<Rightarrow> exn + scan_state" where
  "scan_line st line =
     (case update_total (fst st) (clean_line line) of
        Inl e \<Rightarrow> Inl e
      | Inr t \<Rightarrow>
          (case update_count (snd st) (clean_line line) of
             Inl e \<Rightarrow> Inl e
           | Inr n \<Rightarrow> Inr (t, n)))"

fun scan_lines :: "scan_state \<Rightarrow> str list \<Rightarrow> exn + scan_state" where
  "scan_lines st [] = Inr st"
| "scan_lines st (l # ls) =
     (case scan_line st l of Inl e \<Rightarrow> Inl e | Inr st' \<Rightarrow> scan_lines st' ls)"

type_synonym found = "message \<times> pyfloat \<times> int"

definition detect_message :: "message \<Rightarrow> exn + found option" where
  \<comment> \<open>one pass of the loop body of \<open>get_recent_heist_messages\<close>: what the message adds
      to \<open>found\<close>\<close>
  "detect_message m =
     (if author_id m \<noteq> DANK_MEMER_ID then Inr None
      else if \<not> has_trigger (combined_content m) then Inr None
      else case scan_lines (None, 0) (splitlines (strip (combined_content m))) of
             Inl e \<Rightarrow> Inl e
           | Inr (total_coins, payout_count) \<Rightarrow>
               (case total_coins of
                  None \<Rightarrow> Inr None
                | Some v \<Rightarrow> if 0 < payout_count then Inr (Some (m, v, payout_count))
                            else Inr None))"

fun scan_messages :: "found list \<Rightarrow> int \<Rightarrow> message list \<Rightarrow> exn + found list" where
  \<comment> \<open>the \<open>for msg in messages\<close> loop: the two \<open>continue\<close> branches skip the length
      test, which only runs after a message that carries the trigger phrase\<close>
  "scan_messages found limit [] = Inr found"
| "scan_messages found limit (m # ms) =
     (if author_id m \<noteq> DANK_MEMER_ID then scan_messages found limit ms
      else if \<not> has_trigger (combined_content m) then scan_messages found limit ms
      else case detect_message m of
             Inl e \<Rightarrow> Inl e
           | Inr d \<Rightarrow>
               (let found' = (case d of None \<Rightarrow> found | Some f \<Rightarrow> found @ [f])
                in if limit \<le> int (length found') then Inr found'
                   else scan_messages found' limit ms))"

definition get_recent_heist_messages :: "message list \<Rightarrow> int \<Rightarrow> exn + found list" where
  \<comment> \<open>\<open>messages\<close> is what \<open>channel.history\<close> delivered, newest first\<close>
  "get_recent_heist_messages messages limit =
     (case scan_messages [] limit messages of Inl e \<Rightarrow> Inl e | Inr found \<Rightarrow> Inr (rev found))"

section \<open>heist auto calculator.py\<close>

text \<open>
  The calculator file carries its own copies of the four helpers. Two of them also write
  to the logger; the log is never read back, so it is returned beside the result.
\<close>

datatype log_entry = LogDebug str str | LogError str str

definition calc_parse_currency_value :: "str \<Rightarrow> log_entry list \<times> (exn + pyfloat option)" where
  "calc_parse_currency_value raw =
     (if raw = [] then ([], Inr None)
      else let text = strip (remove_all (lit '','') (remove_all glyph raw));
               num_str = takeWhile num_class text;
               suffix = map upper_char (match_suffix (dropWhile num_class text))
           in if num_str = []
              then ([LogDebug (lit ''parse_currency_value: No match'') raw], Inr None)
              else case py_float num_str of
                     Inl e \<Rightarrow>
                       if e = ValueError
                       then ([LogError (lit ''parse_currency_value: cannot convert'') num_str], Inr None)
                       else ([], Inl e)
                   | Inr base_val \<Rightarrow> ([], Inr (Some (scale_by_suffix suffix base_val))))"

definition calc_parse_plain_number :: "str \<Rightarrow> log_entry list \<times> (exn + pyfloat option)" where
  "calc_parse_plain_number raw =
     (if raw = [] then ([], Inr None)
      else let text = strip (remove_all (lit '','') raw);
               num_str = takeWhile num_class text
           in if num_str = []
              then ([LogDebug (lit ''parse_plain_number: No numeric match'') raw], Inr None)
              else case py_float num_str of
                     Inl e \<Rightarrow>
                       if e = ValueError
                       then ([LogError (lit ''parse_plain_number: error converting'') num_str], Inr None)
                       else ([], Inl e)
                   | Inr v \<Rightarrow> ([], Inr (Some v)))"

definition calc_format_number :: "pyfloat \<Rightarrow> str" where
  "calc_format_number val =
     (let formatted = fmt_fixed2 True val
      in if endswith formatted (lit ''.00'') then take (length formatted - 3) formatted
         else rstrip_chars (rstrip_chars formatted (lit ''0'')) (lit ''.''))"

definition calc_abbreviate_number :: "pyfloat \<Rightarrow> str" where
  "calc_abbreviate_number val =
     (if py_ge val 1000000000
      then strip_dot00 (fmt_fixed2 False (fdiv val (Finite 1000000000))) @ (lit ''B'')
      else if py_ge val 1000000
      then strip_dot00 (fmt_fixed2 False (fdiv val (Finite 1000000))) @ (lit ''M'')
      else if py_ge val 1000
      then strip_dot00 (fmt_fixed2 False (fdiv val (Finite 1000))) @ (lit ''K'')
      else calc_format_number val)"

definition calc_update_total :: "pyfloat option \<Rightarrow> str \<Rightarrow> exn + pyfloat option" where
  "calc_update_total total_coins cl =
     (case total_search cl of
        None \<Rightarrow> Inr total_coins
      | Some g \<Rightarrow>
          (case snd (calc_parse_currency_value (glyph @ (lit '' '') @ g)) of
             Inl e \<Rightarrow> Inl e
           | Inr None \<Rightarrow> Inr total_coins
           | Inr (Some v) \<Rightarrow> Inr (Some v)))"

definition calc_update_count :: "int \<Rightarrow> str \<Rightarrow> exn + int" where
  "calc_update_count payout_count cl =
     (case count_search cl of
        None \<Rightarrow> Inr payout_count
      | Some g \<Rightarrow>
          (case snd (calc_parse_plain_number g) of
             Inl e \<Rightarrow> Inl e
           | Inr None \<Rightarrow> Inr payout_count
           | Inr (Some num_val) \<Rightarrow> py_int num_val))"

definition calc_scan_line :: "scan_state \<Rightarrow> str \<Rightarrow> exn + scan_state" where
  "calc_scan_line st line =
     (case calc_update_total (fst st) (clean_line line) of
        Inl e \<Rightarrow> Inl e
      | Inr t \<Rightarrow>
          (case calc_update_count (snd st) (clean_line line) of
             Inl e \<Rightarrow> Inl e
           | Inr n \<Rightarrow> Inr (t, n)))"

fun calc_scan_lines :: "scan_state \<Rightarrow> str list \<Rightarrow> exn + scan_state" where
  "calc_scan_lines st [] = Inr st"
| "calc_scan_lines st (l # ls) =
     (case calc_scan_line st l of Inl e \<Rightarrow> Inl e | Inr st' \<Rightarrow> calc_scan_lines st' ls)"

record calc_reply =
  reply_count :: int
  reply_each :: pyfloat
  reply_text :: str

definition str_int :: "int \<Rightarrow> str" where
  "str_int n = (if n < 0 then (lit ''-'') @ dec (nat (- n)) else dec (nat n))"

definition payout_text :: "int \<Rightarrow> pyfloat \<Rightarrow> str" where
  \<comment> \<open>the description of the reply embed\<close>
  "payout_text payout_count each_amount =
     str_int payout_count @ (lit '' Person Got: '') @ glyph @ (lit '' '') @ calc_format_number each_amount
     @ (lit '' **('') @ calc_abbreviate_number each_amount @ (lit '')**'')"

definition calc_payout :: "str \<Rightarrow> exn + calc_reply option" where
  \<comment> \<open>\<open>on_message\<close> from the trigger test to the reply embed\<close>
  "calc_payout c =
     (if \<not> has_trigger c then Inr None
      else case calc_scan_lines (None, 0) (splitlines (strip c)) of
             Inl e \<Rightarrow> Inl e
           | Inr (total_coins, payout_count) \<Rightarrow>
               (case total_coins of
                  None \<Rightarrow> Inr None
                | Some v \<Rightarrow>
                    if payout_count = 0 then Inr None
                    else (case py_truediv_int v payout_count of
                            Inl e \<Rightarrow> Inl e
                          | Inr each_amount \<Rightarrow>
                              Inr (Some \<lparr>reply_count = payout_count, reply_each = each_amount,
                                         reply_text = payout_text payout_count each_amount\<rparr>))))"

definition on_message :: "nat set \<Rightarrow> bool \<Rightarrow> message \<Rightarrow> nat set \<times> (exn + calc_reply option)" where
  \<comment> \<open>\<open>processed\<close> is the set of message ids already seen, \<open>enabled\<close> the channel or
      global toggle of the guild configuration\<close>
  "on_message processed enabled m =
     (if msg_id m \<in> processed then (processed, Inr None)
      else if \<not> in_guild m \<or> author_id m \<noteq> DANK_MEMER_ID then (insert (msg_id m) processed, Inr None)
      else if \<not> enabled then (insert (msg_id m) processed, Inr None)
      else (insert (msg_id m) processed, calc_payout (combined_content m)))"
section \<open>Reference definitions\<close>

text \<open>
  The forms in which the properties below state what the code computes.
\<close>

definition scale_of :: "rat \<Rightarrow> rat \<times> str" where
  \<comment> \<open>the largest of billion, million and thousand that the magnitude reaches, with its
      letter\<close>
  "scale_of q =
     (if 1000000000 \<le> q then (1000000000, lit ''B'')
      else if 1000000 \<le> q then (1000000, lit ''M'')
      else (1000, lit ''K''))"

definition two_decimals_short :: "rat \<Rightarrow> str" where
  \<comment> \<open>a non-negative value to two decimals, written without decimals when both are zero\<close>
  "two_decimals_short y =
     (let n = nat (round_half_even (y * 100))
      in if n mod 100 = 0 then dec (n div 100)
         else dec (n div 100) @ lit ''.'' @ [digit_char (n mod 100 div 10), digit_char (n mod 10)])"

section \<open>Properties\<close>

subsection \<open>Rounding\<close>

lemma bitlen_eqI:
  assumes "(2::int) ^ k \<le> x" "x < 2 ^ (Suc k)"
  shows "bitlen x = int k + 1"
proof (rule antisym)
  show "bitlen x \<le> int k + 1"
    using assms(2) by (simp add: bitlen_le_iff_power nat_add_distrib)
  show "int k + 1 \<le> bitlen x"
    using assms(1) by (simp add: bitlen_ge_iff_power nat_add_distrib)
qed

lemma ilog2_ge1:
  assumes "(2::rat) ^ k \<le> q" "q < 2 ^ (Suc k)"
  shows "ilog2 q = int k"
proof -
  have "(1::rat) \<le> 2 ^ k" by simp
  with assms(1) have q1: "1 \<le> q" by linarith
  have a: "(2::int) ^ k \<le> \<lfloor>q\<rfloor>"
    using assms(1) by (simp add: le_floor_iff)
  have b: "\<lfloor>q\<rfloor> < 2 ^ (Suc k)"
    using assms(2) by (simp add: floor_less_iff)
  from bitlen_eqI [OF a b] q1 show ?thesis by (simp add: ilog2_def)
qed

lemma ilog2_lt1:
  assumes "1 / (2::rat) ^ (Suc k) \<le> q" "q < 1 / 2 ^ k"
  shows "ilog2 q = - int (Suc k)"
proof -
  have "(0::rat) < 1 / 2 ^ (Suc k)" by simp
  with assms(1) have q0: "0 < q" by linarith
  have "1 / (2::rat) ^ k \<le> 1" by (simp add: divide_le_eq)
  with assms(2) have q1: "\<not> 1 \<le> q" by linarith
  have u: "1 / q \<le> 2 ^ (Suc k)"
    using assms(1) q0 by (simp add: field_simps)
  have l: "2 ^ k < 1 / q"
    using assms(2) q0 by (simp add: field_simps)
  have a: "(2::int) ^ k \<le> \<lceil>1 / q\<rceil> - 1"
    using l by (simp add: less_ceiling_iff)
  have "\<lceil>1 / q\<rceil> \<le> 2 ^ (Suc k)"
    using u by (simp add: ceiling_le_iff)
  then have b: "\<lceil>1 / q\<rceil> - 1 < 2 ^ (Suc k)" by linarith
  from bitlen_eqI [OF a b] q1 show ?thesis by (simp add: ilog2_def)
qed

lemma round_double_ge1:
  assumes "(2::rat) ^ k \<le> q" "q < 2 ^ (Suc k)"
  shows "round_double q =
           (let u = pow2 (int k - 52); m = of_int (round_half_even (q / u)) * u
            in if pow2 1024 \<le> m then PosInf else Finite m)"
proof -
  have "(0::rat) < 2 ^ k" by simp
  with assms(1) have q0: "0 < q" by linarith
  show ?thesis using q0 ilog2_ge1 [OF assms(1,2)]
    by (simp add: round_double_def Let_def max_def)
qed

lemma pow2_1024_gt: "(2::rat) ^ 53 < pow2 1024"
proof -
  have "pow2 1024 = 2 ^ nat 1024" by (simp only: pow2_def) simp
  moreover have "(2::rat) ^ 53 < 2 ^ nat 1024"
    by (rule power_strict_increasing) simp_all
  ultimately show ?thesis by (simp only:)
qed

lemma round_half_even_quot:
  assumes "0 < b"
  shows "round_half_even (of_int n / of_int b) =
           (let f = n div b; r = n mod b
            in if 2 * r < b then f else if b < 2 * r then f + 1
               else if even f then f else f + 1)"
proof -
  have f: "\<lfloor>(of_int n :: rat) / of_int b\<rfloor> = n div b"
    by (rule floor_divide_of_int_eq)
  have "(of_int n :: rat) = of_int (n div b) * of_int b + of_int (n mod b)"
    by (metis of_int_add of_int_mult div_mult_mod_eq)
  then have d: "(of_int n :: rat) / of_int b - of_int (n div b) = of_int (n mod b) / of_int b"
    using assms by (simp add: field_simps)
  have lt: "(of_int (n mod b) / of_int b < (1::rat) / 2) = (2 * (n mod b) < b)"
    using assms by (simp add: field_simps) (metis of_int_less_iff of_int_mult of_int_numeral)
  have gt: "((1::rat) / 2 < of_int (n mod b) / of_int b) = (b < 2 * (n mod b))"
    using assms by (simp add: field_simps) (metis of_int_less_iff of_int_mult of_int_numeral)
  show ?thesis
    unfolding round_half_even_def Let_def f d lt gt ..
qed

lemma round_half_even_bounds: "\<lfloor>x\<rfloor> \<le> round_half_even x \<and> round_half_even x \<le> \<lfloor>x\<rfloor> + 1"
  by (simp add: round_half_even_def Let_def)

lemma round_double_quot:
  assumes b: "0 < b" and lo: "2 ^ k * b \<le> a" and hi: "a < 2 ^ (Suc k) * b" and k: "k \<le> 52"
  shows "round_double (of_int a / of_int b) =
           (let n = a * 2 ^ (52 - k); f = n div b; r = n mod b;
                h = (if 2 * r < b then f else if b < 2 * r then f + 1
                     else if even f then f else f + 1)
            in Finite (of_int h / 2 ^ (52 - k)))"
proof -
  let ?q = "(of_int a :: rat) / of_int b"
  let ?n = "a * 2 ^ (52 - k)"
  have b': "(0::rat) < of_int b" using b by simp
  have "(of_int (2 ^ k * b) :: rat) \<le> of_int a"
    using lo by (simp only: of_int_le_iff)
  then have "(2::rat) ^ k * of_int b \<le> of_int a" by simp
  then have qlo: "(2::rat) ^ k \<le> ?q" using b' by (simp add: pos_le_divide_eq)
  have "(of_int a :: rat) < of_int (2 ^ (Suc k) * b)"
    using hi by (simp only: of_int_less_iff)
  then have "(of_int a :: rat) < 2 ^ (Suc k) * of_int b" by simp
  then have qhi: "?q < 2 ^ (Suc k)" using b' by (simp add: pos_divide_less_eq)
  have u: "pow2 (int k - 52) = 1 / 2 ^ (52 - k)"
    using k by (auto simp: pow2_def nat_diff_distrib')
  have qu: "?q / (1 / 2 ^ (52 - k)) = of_int ?n / of_int b"
    by simp
  define r where "r = round_half_even (of_int ?n / of_int b)"
  have "?q * 2 ^ (52 - k) < 2 ^ (Suc k) * 2 ^ (52 - k)"
    by (rule mult_strict_right_mono [OF qhi]) simp
  moreover have "Suc k + (52 - k) = 53" using k by simp
  then have "(2::rat) ^ (Suc k) * 2 ^ (52 - k) = 2 ^ 53"
    by (simp only: power_add [symmetric])
  ultimately have "?q * 2 ^ (52 - k) < 2 ^ 53" by simp
  then have "of_int ?n / of_int b < (2::rat) ^ 53" by simp
  then have "\<lfloor>(of_int ?n :: rat) / of_int b\<rfloor> < 2 ^ 53"
    by (simp add: floor_less_iff)
  with round_half_even_bounds [of "of_int ?n / of_int b"]
  have hb: "r \<le> 2 ^ 53" unfolding r_def by linarith
  have "(of_int r :: rat) \<le> of_int (2 ^ 53)"
    using hb by (simp only: of_int_le_iff)
  then have hb': "(of_int r :: rat) \<le> 2 ^ 53" by simp
  have d1: "(1::rat) \<le> 2 ^ (52 - k)" by simp
  have m: "(2::rat) ^ 53 \<le> 2 ^ 53 * 2 ^ (52 - k)"
    using mult_left_mono [OF d1, of "2 ^ 53"] by simp
  from order_trans [OF hb' m]
  have "(of_int r :: rat) / 2 ^ (52 - k) \<le> 2 ^ 53"
    by (simp add: pos_divide_le_eq)
  with pow2_1024_gt have nov: "\<not> pow2 1024 \<le> of_int r * (1 / 2 ^ (52 - k))"
    by simp
  have "round_double ?q =
          (if pow2 1024 \<le> of_int r * (1 / 2 ^ (52 - k)) then PosInf
           else Finite (of_int r * (1 / 2 ^ (52 - k))))"
    unfolding round_double_ge1 [OF qlo qhi] u Let_def qu r_def ..
  with nov have "round_double ?q = Finite (of_int r * (1 / 2 ^ (52 - k)))"
    by (simp only: if_False)
  then have "round_double ?q = Finite (of_int r / 2 ^ (52 - k))"
    by simp
  then show ?thesis
    by (simp only: r_def round_half_even_quot [OF b] Let_def)
qed

subsection \<open>The two copies of the helpers\<close>

lemma calc_parse_currency_value_snd: "snd (calc_parse_currency_value raw) = parse_currency_value raw"
  by (simp add: calc_parse_currency_value_def parse_currency_value_def Let_def split: sum.splits)

lemma calc_parse_plain_number_snd: "snd (calc_parse_plain_number raw) = parse_plain_number raw"
  by (simp add: calc_parse_plain_number_def parse_plain_number_def Let_def split: sum.splits)

lemma calc_format_number_eq: "calc_format_number = format_number"
  by (rule ext) (simp add: calc_format_number_def format_number_def)

lemma calc_abbreviate_number_eq: "calc_abbreviate_number = abbreviate_number"
  by (rule ext) (simp add: calc_abbreviate_number_def abbreviate_number_def calc_format_number_eq)

lemma calc_update_total_eq: "calc_update_total t cl = update_total t cl"
  unfolding calc_update_total_def update_total_def calc_parse_currency_value_snd ..

lemma calc_update_count_eq: "calc_update_count n cl = update_count n cl"
  unfolding calc_update_count_def update_count_def calc_parse_plain_number_snd ..

lemma calc_scan_line_eq: "calc_scan_line st l = scan_line st l"
  unfolding calc_scan_line_def scan_line_def calc_update_total_eq calc_update_count_eq ..

lemma calc_scan_lines_eq: "calc_scan_lines st ls = scan_lines st ls"
  by (induction ls arbitrary: st) (simp_all add: calc_scan_line_eq split: sum.split)

text \<open>
  C1. A candidate message whose lower-cased combined text does not contain the phrase
  "amazing job everybody" is rejected: the scan step of the summary cog adds nothing to
  \<open>found\<close> and the calculator's listener replies nothing, whatever else the text holds
  and without any line of it being scanned.
\<close>

theorem trigger_absent_rejected:
  assumes "\<not> contains (lower (combined_content m)) (lit ''amazing job everybody'')"
  shows "detect_message m = Inr None
         \<and> snd (on_message processed enabled m) = Inr None
         \<and> calc_payout (combined_content m) = Inr None
         \<and> scan_messages found limit (m # ms) = scan_messages found limit ms"
  using assms
  by (simp add: detect_message_def on_message_def calc_payout_def has_trigger_def)

theorem trigger_absent_rejected_witness:
  "\<not> contains (lower (combined_content
        \<lparr>msg_id = 7, author_id = DANK_MEMER_ID, in_guild = True,
         content = lit ''racked up a total of '' @ glyph @ lit '' 5 and 2 users got the payout'',
         embeds = []\<rparr>))
      (lit ''amazing job everybody'')
   \<and> detect_message
        \<lparr>msg_id = 7, author_id = DANK_MEMER_ID, in_guild = True,
         content = lit ''racked up a total of '' @ glyph @ lit '' 5 and 2 users got the payout'',
         embeds = []\<rparr>
       = Inr None
   \<and> snd (on_message {} True
        \<lparr>msg_id = 7, author_id = DANK_MEMER_ID, in_guild = True,
         content = lit ''racked up a total of '' @ glyph @ lit '' 5 and 2 users got the payout'',
         embeds = []\<rparr>)
       = Inr None"
proof -
  have h: "\<not> contains (lower (combined_content
        \<lparr>msg_id = 7, author_id = DANK_MEMER_ID, in_guild = True,
         content = lit ''racked up a total of '' @ glyph @ lit '' 5 and 2 users got the payout'',
         embeds = []\<rparr>))
      (lit ''amazing job everybody'')"
    by (simp add: combined_content_def lower_def lower_char_def startswith_def lit_def glyph_def)
  from trigger_absent_rejected [OF h, of "{}" True] h show ?thesis
    by blast
qed

text \<open>
  C9. The four helpers of heistsummary.py and their copies in the calculator file return
  the same result on every input; the copies differ only in what they log.
\<close>

theorem helper_copies_equal:
  "snd (calc_parse_currency_value raw) = parse_currency_value raw
   \<and> snd (calc_parse_plain_number raw) = parse_plain_number raw
   \<and> calc_format_number val = format_number val
   \<and> calc_abbreviate_number val = abbreviate_number val"
  by (simp add: calc_parse_currency_value_snd calc_parse_plain_number_snd
      calc_format_number_eq calc_abbreviate_number_eq)

lemma digit_start_ascii:
  "c < 1632 \<Longrightarrow> digit_start c = (if 48 \<le> c \<and> c < 58 then Some 48 else None)"
  by (simp add: digit_start_def decimal_starts_def)

lemma is_digit_ascii: "c < 1632 \<Longrightarrow> is_digit c = (48 \<le> c \<and> c < 58)"
  by (simp add: is_digit_def digit_start_ascii)

lemma digit_val_ascii: "c < 1632 \<Longrightarrow> digit_val c = (if 48 \<le> c \<and> c < 58 then c - 48 else 0)"
  by (simp add: digit_val_def digit_start_ascii)

lemma not_digit_dot: "\<not> is_digit (ch CHR ''.'')"
  by (simp add: is_digit_ascii)

lemma py_float_error: "py_float s = Inl e \<Longrightarrow> e = ValueError"
  by (auto simp: py_float_def Let_def split: list.splits if_splits)

lemma count_dot_digits: "list_all is_digit xs \<Longrightarrow> count_list xs 46 = 0"
  using not_digit_dot by (induction xs) auto

lemma count_dot_takeWhile: "count_list (takeWhile is_digit xs) 46 = 0"
  using not_digit_dot by (induction xs) auto

lemma count_list_app: "count_list (xs @ ys) x = count_list xs x + count_list ys x"
  by (induction xs) auto

lemma py_float_two_dots:
  assumes "2 \<le> count_list s 46"
  shows "py_float s = Inl ValueError"
proof -
  have "count_list (takeWhile is_digit s @ dropWhile is_digit s) 46
        = count_list (dropWhile is_digit s) 46"
    by (simp only: count_list_app count_dot_takeWhile add_0)
  then have c: "count_list s 46 = count_list (dropWhile is_digit s) 46"
    by simp
  show ?thesis
  proof (cases "dropWhile is_digit s")
    case Nil
    with c assms show ?thesis by simp
  next
    case (Cons c' fr)
    with c assms have "\<not> (c' = 46 \<and> list_all is_digit fr)"
      by (auto simp: count_dot_digits split: if_splits)
    with Cons show ?thesis by (auto simp add: py_float_def Let_def)
  qed
qed

lemma py_float_no_digit:
  assumes "\<forall>c \<in> set s. \<not> is_digit c"
  shows "py_float s = Inl ValueError"
proof (cases s)
  case Nil
  then show ?thesis by (simp add: py_float_def)
next
  case (Cons c fr)
  with assms have "\<not> is_digit c" "fr \<noteq> [] \<longrightarrow> \<not> list_all is_digit fr"
    by (auto simp: neq_Nil_conv)
  with Cons show ?thesis by (auto simp add: py_float_def Let_def)
qed

lemma parse_currency_value_total: "\<exists>r. parse_currency_value raw = Inr r"
  by (auto simp: parse_currency_value_def Let_def split: sum.splits dest: py_float_error)

lemma parse_plain_number_total: "\<exists>r. parse_plain_number raw = Inr r"
  by (auto simp: parse_plain_number_def Let_def split: sum.splits dest: py_float_error)


lemmas str_eval = lit_def glyph_def strip_def is_space_def num_class_def is_digit_ascii
  digit_val_ascii startswith_def remove_all.simps nat_of_digits_def Let_def

text \<open>
  C7. \<open>parse_currency_value\<close> and \<open>parse_plain_number\<close> are total: on every input
  they return a value and raise nothing. The empty string and a text with no leading
  numeric literal give the absent value \<open>None\<close>; so does every literal that \<open>float\<close>
  refuses, whose exception is caught; and \<open>float\<close> refuses with ValueError every literal
  with more than one decimal point or without a digit.
\<close>

theorem parsers_total:
  "(\<exists>r. parse_currency_value raw = Inr r) \<and> (\<exists>r. parse_plain_number raw = Inr r)
   \<and> parse_currency_value [] = Inr None \<and> parse_plain_number [] = Inr None
   \<and> (takeWhile num_class (strip (remove_all (lit '','') (remove_all glyph raw))) = []
        \<longrightarrow> parse_currency_value raw = Inr None)
   \<and> (takeWhile num_class (strip (remove_all (lit '','') raw)) = []
        \<longrightarrow> parse_plain_number raw = Inr None)
   \<and> (py_float (takeWhile num_class (strip (remove_all (lit '','') (remove_all glyph raw))))
          = Inl e
        \<longrightarrow> parse_currency_value raw = Inr None)
   \<and> (py_float (takeWhile num_class (strip (remove_all (lit '','') raw))) = Inl e
        \<longrightarrow> parse_plain_number raw = Inr None)
   \<and> (2 \<le> count_list num (ch CHR ''.'') \<or> (\<forall>c \<in> set num. \<not> is_digit c)
        \<longrightarrow> py_float num = Inl ValueError)"
proof -
  have "py_float s = Inl e \<Longrightarrow> e = ValueError" for s
    by (rule py_float_error)
  then have a: "py_float (takeWhile num_class (strip (remove_all (lit '','') (remove_all glyph raw))))
          = Inl e \<longrightarrow> parse_currency_value raw = Inr None"
    and b: "py_float (takeWhile num_class (strip (remove_all (lit '','') raw))) = Inl e
        \<longrightarrow> parse_plain_number raw = Inr None"
    by (auto simp: parse_currency_value_def parse_plain_number_def Let_def)
  have c: "2 \<le> count_list num (ch CHR ''.'') \<or> (\<forall>c \<in> set num. \<not> is_digit c)
        \<longrightarrow> py_float num = Inl ValueError"
    using py_float_two_dots [of num] py_float_no_digit [of num] by auto
  have d: "parse_currency_value [] = Inr None \<and> parse_plain_number [] = Inr None
     \<and> (takeWhile num_class (strip (remove_all (lit '','') (remove_all glyph raw))) = []
        \<longrightarrow> parse_currency_value raw = Inr None)
     \<and> (takeWhile num_class (strip (remove_all (lit '','') raw)) = []
        \<longrightarrow> parse_plain_number raw = Inr None)"
    by (simp add: parse_currency_value_def parse_plain_number_def Let_def)
  from a b c d parse_currency_value_total [of raw] parse_plain_number_total [of raw]
  show ?thesis by blast
qed

theorem parsers_total_witness:
  "takeWhile num_class (strip (remove_all (lit '','') (remove_all glyph (lit ''garbage'')))) = []
   \<and> parse_currency_value (lit ''garbage'') = Inr None
   \<and> takeWhile num_class (strip (remove_all (lit '','') (lit ''garbage''))) = []
   \<and> parse_plain_number (lit ''garbage'') = Inr None
   \<and> py_float (takeWhile num_class (strip (remove_all (lit '','') (remove_all glyph (lit ''.'')))))
       = Inl ValueError
   \<and> parse_currency_value (lit ''.'') = Inr None
   \<and> py_float (takeWhile num_class (strip (remove_all (lit '','') (lit ''.'')))) = Inl ValueError
   \<and> parse_plain_number (lit ''.'') = Inr None
   \<and> 2 \<le> count_list (lit ''1.2.3'') (ch CHR ''.'')
   \<and> py_float (lit ''1.2.3'') = Inl ValueError"
proof -
  have a: "takeWhile num_class
             (strip (remove_all (lit '','') (remove_all glyph (lit ''garbage'')))) = []"
    by (simp add: str_eval)
  have b: "takeWhile num_class (strip (remove_all (lit '','') (lit ''garbage''))) = []"
    by (simp add: str_eval)
  have c: "py_float (takeWhile num_class
             (strip (remove_all (lit '','') (remove_all glyph (lit ''.''))))) = Inl ValueError"
    by (simp add: str_eval py_float_def)
  have d: "py_float (takeWhile num_class (strip (remove_all (lit '','') (lit ''.''))))
           = Inl ValueError"
    by (simp add: str_eval py_float_def)
  have e: "2 \<le> count_list (lit ''1.2.3'') (ch CHR ''.'')"
    by (simp add: lit_def)
  from a b c d e parsers_total [of "lit ''garbage''"]
    parsers_total [of "lit ''.''" ValueError "lit ''1.2.3''"]
  show ?thesis by blast
qed

subsection \<open>The currency value parser\<close>

lemma round_double_3_2: "round_double (3 / 2) = Finite (3 / 2)"
  using round_double_quot [of 2 0 3] by (simp add: Let_def)

lemma round_double_1500000: "round_double 1500000 = Finite 1500000"
  using round_double_quot [of 1 20 1500000] by (simp add: Let_def)

lemma takeWhile_hd: "ys = [] \<or> \<not> P (hd ys) \<Longrightarrow> takeWhile P ys = []"
  by (cases ys) auto

lemma dropWhile_hd: "ys = [] \<or> \<not> P (hd ys) \<Longrightarrow> dropWhile P ys = ys"
  by (cases ys) auto

lemma takeWhile_all_app:
  "list_all P xs \<Longrightarrow> ys = [] \<or> \<not> P (hd ys) \<Longrightarrow> takeWhile P (xs @ ys) = xs"
  by (induction xs) (simp_all add: takeWhile_hd)

lemma dropWhile_all_app:
  "list_all P xs \<Longrightarrow> ys = [] \<or> \<not> P (hd ys) \<Longrightarrow> dropWhile P (xs @ ys) = ys"
  by (induction xs) (simp_all add: dropWhile_hd)

lemma strip_Nil: "strip [] = []"
  by (simp add: strip_def)

lemma remove_all_Nil: "remove_all old [] = []"
  by (simp add: remove_all.simps)

text \<open>
  C5. After the glyph, the commas and the surrounding blanks are removed, a text that
  begins with a numeric literal \<open>num\<close> which \<open>float\<close> converts to \<open>v\<close> parses to \<open>v\<close>
  times 1,000, 1,000,000 or 1,000,000,000 when the literal is followed by k, m or b in
  either case, and to \<open>v\<close> itself otherwise. The text \<open>GLYPH 1.5M\<close> parses to 1,500,000
  and \<open>garbage\<close> to the absent value.
\<close>

theorem currency_value_scaled:
  "(strip (remove_all (lit '','') (remove_all glyph raw)) = num @ rest
      \<and> num \<noteq> [] \<and> list_all num_class num \<and> (rest = [] \<or> \<not> num_class (hd rest))
      \<and> py_float num = Inr v
    \<longrightarrow> parse_currency_value raw =
          Inr (Some (if rest = [] then v
                     else if hd rest \<in> set (lit ''kK'') then py_mul v (Finite 1000)
                     else if hd rest \<in> set (lit ''mM'') then py_mul v (Finite 1000000)
                     else if hd rest \<in> set (lit ''bB'') then py_mul v (Finite 1000000000)
                     else v)))
   \<and> parse_currency_value (glyph @ lit '' 1.5M'') = Inr (Some (Finite 1500000))
   \<and> parse_currency_value (lit ''garbage'') = Inr None"
proof -
  have ex1: "parse_currency_value (glyph @ lit '' 1.5M'') = Inr (Some (Finite 1500000))"
    by (simp add: parse_currency_value_def py_float_def str_eval match_suffix_def
        suffix_class_def upper_char_def scale_by_suffix_def py_mul_def
        round_double_3_2 round_double_1500000)
  have ex2: "parse_currency_value (lit ''garbage'') = Inr None"
    by (simp add: parse_currency_value_def str_eval)
  have gen: "parse_currency_value raw =
          Inr (Some (if rest = [] then v
                     else if hd rest \<in> set (lit ''kK'') then py_mul v (Finite 1000)
                     else if hd rest \<in> set (lit ''mM'') then py_mul v (Finite 1000000)
                     else if hd rest \<in> set (lit ''bB'') then py_mul v (Finite 1000000000)
                     else v))"
    if t: "strip (remove_all (lit '','') (remove_all glyph raw)) = num @ rest"
      and n: "num \<noteq> []" and a: "list_all num_class num"
      and r: "rest = [] \<or> \<not> num_class (hd rest)" and f: "py_float num = Inr v"
  proof -
    have raw: "raw \<noteq> []"
      using t n by (auto simp: remove_all_Nil strip_Nil)
    have tw: "takeWhile num_class (num @ rest) = num"
      by (rule takeWhile_all_app [OF a r])
    have dw: "dropWhile num_class (num @ rest) = rest"
      by (rule dropWhile_all_app [OF a r])
    have p: "parse_currency_value raw =
               Inr (Some (scale_by_suffix (map upper_char (match_suffix rest)) v))"
      by (simp add: parse_currency_value_def Let_def t tw dw raw n f)
    have "scale_by_suffix (map upper_char (match_suffix rest)) v =
            (if rest = [] then v
             else if hd rest \<in> set (lit ''kK'') then py_mul v (Finite 1000)
             else if hd rest \<in> set (lit ''mM'') then py_mul v (Finite 1000000)
             else if hd rest \<in> set (lit ''bB'') then py_mul v (Finite 1000000000)
             else v)"
      by (cases rest)
        (auto simp: match_suffix_def scale_by_suffix_def lit_def suffix_class_def upper_char_def)
    with p show ?thesis by simp
  qed
  from gen ex1 ex2 show ?thesis by blast
qed

theorem currency_value_scaled_witness:
  "strip (remove_all (lit '','') (remove_all glyph (glyph @ lit '' 1,5k ''))) = lit ''15'' @ lit ''k''
   \<and> lit ''15'' \<noteq> [] \<and> list_all num_class (lit ''15'')
   \<and> (lit ''k'' = [] \<or> \<not> num_class (hd (lit ''k'')))
   \<and> py_float (lit ''15'') = Inr (Finite 15)
   \<and> parse_currency_value (glyph @ lit '' 1,5k '') = Inr (Some (py_mul (Finite 15) (Finite 1000)))"
proof -
  have a: "strip (remove_all (lit '','') (remove_all glyph (glyph @ lit '' 1,5k '')))
           = lit ''15'' @ lit ''k''"
    by (simp add: str_eval)
  have b: "lit ''15'' \<noteq> [] \<and> list_all num_class (lit ''15'')
           \<and> (lit ''k'' = [] \<or> \<not> num_class (hd (lit ''k'')))"
    by (simp add: str_eval)
  have c: "py_float (lit ''15'') = Inr (Finite 15)"
    using round_double_quot [of 1 3 15] by (simp add: py_float_def str_eval)
  from currency_value_scaled [of "glyph @ lit '' 1,5k ''" "lit ''15''" "lit ''k''" "Finite 15"] a b c
  show ?thesis by (simp add: lit_def)
qed

subsection \<open>The abbreviated form\<close>

lemma pow2_pos: "0 < pow2 e"
  by (simp add: pow2_def)

lemma round_half_even_nonneg: "0 \<le> x \<Longrightarrow> 0 \<le> round_half_even x"
  using round_half_even_bounds [of x] by (simp add: order_trans [of 0 "\<lfloor>x\<rfloor>"])

lemma round_double_nonneg:
  assumes "0 < q" "round_double q = Finite y"
  shows "0 \<le> y"
proof -
  define u where "u = pow2 (max (ilog2 q) (- 1022) - 52)"
  have u: "0 < u" unfolding u_def by (rule pow2_pos)
  then have "0 \<le> q / u" using assms(1) by simp
  then have "0 \<le> round_half_even (q / u)" by (rule round_half_even_nonneg)
  then have "(0::rat) \<le> of_int (round_half_even (q / u)) * u" using u by simp
  moreover have "y = of_int (round_half_even (q / u)) * u"
    using assms by (simp add: round_double_def Let_def u_def split: if_splits)
  ultimately show ?thesis by simp
qed

lemma strip_dot00_fixed:
  "d1 < 10 \<Longrightarrow> d2 < 10 \<Longrightarrow>
   strip_dot00 (ip @ lit ''.'' @ [digit_char d1, digit_char d2]) =
     (if d1 = 0 \<and> d2 = 0 then ip else ip @ lit ''.'' @ [digit_char d1, digit_char d2])"
  by (auto simp: strip_dot00_def endswith_def lit_def digit_char_def)

lemma fmt_fixed2_strip:
  assumes "0 \<le> y"
  shows "strip_dot00 (fmt_fixed2 False (Finite y)) = two_decimals_short y"
proof -
  define n where "n = nat (round_half_even (y * 100))"
  have a: "n mod 100 div 10 < 10" "n mod 10 < 10" by simp_all
  have e: "n mod 10 = n mod 100 mod 10" by (simp add: mod_mod_cancel)
  have "n mod 100 = n mod 100 div 10 * 10 + n mod 100 mod 10" by simp
  with e have z: "(n mod 100 div 10 = 0 \<and> n mod 10 = 0) = (n mod 100 = 0)"
    by auto
  have "fmt_fixed2 False (Finite y) =
          dec (n div 100) @ lit ''.'' @ [digit_char (n mod 100 div 10), digit_char (n mod 10)]"
    using assms by (simp add: fmt_fixed2_def Let_def n_def)
  then show ?thesis
    by (simp only: strip_dot00_fixed [OF a] z two_decimals_short_def Let_def n_def [symmetric])
qed


lemma round_double_1: "round_double 1 = Finite 1"
  using round_double_quot [of 1 0 1] by (simp add: Let_def)

lemma round_double_2: "round_double 2 = Finite 2"
  using round_double_quot [of 1 1 2] by (simp add: Let_def)

lemma round_double_1234567: "round_double (1234567 / 1000000)
                             = Finite (5559995481163911 / 4503599627370496)"
  using round_double_quot [of 1000000 0 1234567] by (simp add: Let_def)

lemma round_half_even_123: "round_half_even (138999887029097775 / 1125899906842624) = 123"
  using round_half_even_quot [of 1125899906842624 138999887029097775] by (simp add: Let_def)

lemmas abbrev_eval = abbreviate_number_def fdiv_def strip_dot00_def endswith_def fmt_fixed2_def
  round_half_even_def digit_char_def dec.simps lit_def Let_def

lemma abbreviate_1000: "abbreviate_number (Finite 1000) = lit ''1K''"
  by (simp add: abbrev_eval round_double_1)

lemma abbreviate_1500: "abbreviate_number (Finite 1500) = lit ''1.50K''"
  by (simp add: abbrev_eval round_double_3_2)

lemma abbreviate_2000000000: "abbreviate_number (Finite 2000000000) = lit ''2B''"
  by (simp add: abbrev_eval round_double_2)

lemma abbreviate_1234567: "abbreviate_number (Finite 1234567) = lit ''1.23M''"
  by (simp add: abbreviate_number_def fdiv_def strip_dot00_def endswith_def fmt_fixed2_def
      digit_char_def dec.simps lit_def Let_def round_double_1234567 round_half_even_123)


lemma format_number_3_2: "format_number (Finite (3 / 2)) = lit ''1.5''"
  by (simp add: format_number_def fmt_fixed2_def endswith_def rstrip_chars_def group_commas_def
      round_half_even_def digit_char_def dec.simps lit_def Let_def)

lemma abbreviate_scaled:
  assumes q: "1000 \<le> q" and y: "round_double (q / fst (scale_of q)) = Finite y"
  shows "abbreviate_number (Finite q) = two_decimals_short y @ snd (scale_of q)"
proof -
  have s: "0 < fst (scale_of q)" by (simp add: scale_of_def)
  with q have "0 < q / fst (scale_of q)" by simp
  from round_double_nonneg [OF this y] have y0: "0 \<le> y" .
  have q0: "q \<noteq> 0" using q by simp
  have "abbreviate_number (Finite q)
        = strip_dot00 (fmt_fixed2 False (round_double (q / fst (scale_of q)))) @ snd (scale_of q)"
    using q q0 by (simp add: abbreviate_number_def fdiv_def scale_of_def)
  then show ?thesis
    by (simp only: y fmt_fixed2_strip [OF y0])
qed

text \<open>
  C6, as the code has it. A magnitude of at least 1000 is divided by the largest of
  billion, million and thousand that it reaches; the quotient is written with two
  decimals, which are dropped only when both are zero (a single trailing zero stays),
  and the letter B, M or K follows. A magnitude below 1000 is written in the grouped
  form. So 1000 gives \<open>1K\<close>, 1500 gives \<open>1.50K\<close>, 1234567 gives \<open>1.23M\<close> and 2000000000
  gives \<open>2B\<close>.
\<close>

theorem abbreviate_number_rule:
  "(1000 \<le> q \<and> round_double (q / fst (scale_of q)) = Finite y
      \<longrightarrow> abbreviate_number (Finite q) = two_decimals_short y @ snd (scale_of q))
   \<and> (q < 1000 \<longrightarrow> abbreviate_number (Finite q) = format_number (Finite q))
   \<and> abbreviate_number (Finite 1000) = lit ''1K''
   \<and> abbreviate_number (Finite 1500) = lit ''1.50K''
   \<and> abbreviate_number (Finite 1234567) = lit ''1.23M''
   \<and> abbreviate_number (Finite 2000000000) = lit ''2B''"
proof -
  have "q < 1000 \<longrightarrow> abbreviate_number (Finite q) = format_number (Finite q)"
    by (simp add: abbreviate_number_def)
  with abbreviate_scaled [of q y] abbreviate_1000 abbreviate_1500 abbreviate_1234567
    abbreviate_2000000000
  show ?thesis by blast
qed

theorem abbreviate_number_rule_witness:
  "(1000::rat) \<le> 2500000 \<and> round_double (2500000 / fst (scale_of 2500000)) = Finite (5 / 2)
   \<and> abbreviate_number (Finite 2500000) = two_decimals_short (5 / 2) @ snd (scale_of 2500000)
   \<and> two_decimals_short (5 / 2) @ snd (scale_of 2500000) = lit ''2.50M''
   \<and> (999::rat) < 1000 \<and> abbreviate_number (Finite 999) = format_number (Finite 999)"
proof -
  have a: "round_double (2500000 / fst (scale_of 2500000)) = Finite (5 / 2)"
    using round_double_quot [of 2 1 5] by (simp add: scale_of_def Let_def)
  have b: "two_decimals_short (5 / 2) @ snd (scale_of 2500000) = lit ''2.50M''"
    by (simp add: two_decimals_short_def scale_of_def round_half_even_def digit_char_def
        dec.simps lit_def Let_def)
  from a b abbreviate_number_rule [of 2500000 "5 / 2"] abbreviate_number_rule [of 999]
  show ?thesis by simp
qed

text \<open>
  C6 as the specification words it fails at 1500: the abbreviated form is \<open>1.50K\<close>, not
  \<open>1.5K\<close>. The grouped form does strip the trailing zero of the same quotient, so the
  two forms do not share one rule.
\<close>

theorem abbreviate_1500_keeps_zero:
  "abbreviate_number (Finite 1500) \<noteq> lit ''1.5K''
   \<and> abbreviate_number (Finite 1500) = lit ''1.50K''
   \<and> format_number (Finite (3 / 2)) = lit ''1.5''"
  by (simp add: abbreviate_1500 format_number_3_2) (simp add: lit_def)

end
